theory Spec2Isabelle
  imports Complex_Main
begin

section \<open>The scan-task orchestrator of \<^verbatim>\<open>toolkit/sqlmap.py\<close>\<close>

text \<open>
  The module keeps one dictionary \<^verbatim>\<open>tasks\<close> from task ids to task dictionaries.
  \<^verbatim>\<open>ExecSqlmap\<close> creates an entry, \<^verbatim>\<open>run_sqlmap_scan\<close> drives the external process and
  updates the entry, \<^verbatim>\<open>parse_scan_results_from_output\<close> extracts findings from the output
  buffer, and \<^verbatim>\<open>get_scan_status\<close> reports on an entry.

  Text is a \<^typ>\<open>string\<close>: a list of 8-bit characters, read as the code points below 256
  of a Python \<^verbatim>\<open>str\<close>. Time stamps (\<^verbatim>\<open>loop.time()\<close>) are real numbers.
\<close>

subsection \<open>Data model\<close>

datatype ScanStatus = QUEUED | RUNNING | COMPLETED | FAILED

text \<open>
  The values an option can carry. Python's \<^verbatim>\<open>bool\<close> is a subclass of \<^verbatim>\<open>int\<close>, so
  \<^verbatim>\<open>isinstance(v, (int, float))\<close> holds for booleans too. A float carries the text that
  formatting it produces; \<open>PyOther\<close> stands for every other type (\<^verbatim>\<open>None\<close>, lists, ...).
\<close>

datatype pyvalue = PyBool bool | PyInt int | PyFloat string | PyStr string | PyOther

text \<open>
  One finding is a dictionary with the key \<^verbatim>\<open>type\<close> and some of \<^verbatim>\<open>parameter\<close>,
  \<^verbatim>\<open>title\<close>, \<^verbatim>\<open>payload\<close>, \<^verbatim>\<open>info\<close>; an absent key is \<open>None\<close>.
\<close>

record finding =
  parameter :: "string option"
  ftype :: string
  title :: "string option"
  payload :: "string option"
  info :: "string option"

text \<open>
  A vulnerability noted while the output is read (line 81) is a dictionary with exactly the
  keys \<^verbatim>\<open>parameter\<close> and \<^verbatim>\<open>type\<close>; \<open>as_finding\<close> is the same dictionary as an element of
  the results.
\<close>

record vulnerability =
  vparameter :: string
  vtype :: string

definition as_finding :: "vulnerability \<Rightarrow> finding" where
  "as_finding v =
     \<lparr>parameter = Some (vparameter v), ftype = vtype v, title = None, payload = None, info = None\<rparr>"

text \<open>
  A task dictionary. \<open>status\<close>, \<open>target_url\<close> and \<open>options\<close> are set at creation and
  read without a presence test; every key whose presence the code tests is an option
  (\<open>None\<close>: the key is absent; for \<open>results\<close> also: the value is \<^verbatim>\<open>None\<close>). The key
  \<^verbatim>\<open>output\<close> is the field \<open>output_buffer\<close>, the key \<^verbatim>\<open>type\<close> of a finding the field
  \<open>ftype\<close>.
\<close>

record task =
  status :: ScanStatus
  target_url :: string
  options :: "(string \<times> pyvalue) list"
  start_time :: "real option"
  output_buffer :: "string option"
  results :: "finding list option"
  command :: "string option"
  critical_lines :: "string list option"
  vulnerabilities :: "vulnerability list option"
  errors :: "string list option"
  return_code :: "int option"
  end_time :: "real option"
  error :: "string option"
  parse_error :: "string option"

type_synonym tasks = "string \<rightharpoonup> task"

subsection \<open>Building the command line (\<^verbatim>\<open>run_sqlmap_scan\<close>, lines 40--49)\<close>

definition SQLMAP_PATH :: string where
  "SQLMAP_PATH = ''sqlmap''"

definition digit_char :: "nat \<Rightarrow> char" where
  "digit_char d = ''0123456789'' ! d"

fun str_nat :: "nat \<Rightarrow> string" where
  "str_nat n = (if n < 10 then [digit_char n] else str_nat (n div 10) @ [digit_char (n mod 10)])"

declare str_nat.simps [simp del]

definition str_int :: "int \<Rightarrow> string" where
  "str_int i = (if i < 0 then CHR ''-'' # str_nat (nat (- i)) else str_nat (nat i))"

text \<open>\<^verbatim>\<open>f"{value}"\<close> for the values that reach a formatting branch.\<close>

fun format_value :: "pyvalue \<Rightarrow> string" where
  "format_value (PyBool b) = (if b then ''True'' else ''False'')"
| "format_value (PyInt i) = str_int i"
| "format_value (PyFloat s) = s"
| "format_value (PyStr s) = s"
| "format_value PyOther = ''''"

text \<open>
  One round of the loop over \<^verbatim>\<open>options.items()\<close>: the \<^verbatim>\<open>if\<close>/\<^verbatim>\<open>elif\<close> chain, with its
  tests: \<open>is_true_bool\<close> is \<^verbatim>\<open>isinstance(value, bool) and value\<close>.
\<close>

fun is_true_bool :: "pyvalue \<Rightarrow> bool" where
  "is_true_bool (PyBool b) = b"
| "is_true_bool v = False"

fun isinstance_int_float :: "pyvalue \<Rightarrow> bool" where
  "isinstance_int_float (PyBool b) = True"
| "isinstance_int_float (PyInt i) = True"
| "isinstance_int_float (PyFloat s) = True"
| "isinstance_int_float v = False"

fun isinstance_str :: "pyvalue \<Rightarrow> bool" where
  "isinstance_str (PyStr s) = True"
| "isinstance_str v = False"

definition option_args :: "string \<times> pyvalue \<Rightarrow> string list" where
  "option_args kv =
     (let key = fst kv; value = snd kv in
      if is_true_bool value then [''--'' @ key]
      else if isinstance_int_float value then [''--'' @ key @ ''='' @ format_value value]
      else if isinstance_str value then [''--'' @ key @ ''='' @ format_value value]
      else [])"

definition build_cmd :: "string \<Rightarrow> (string \<times> pyvalue) list \<Rightarrow> string list" where
  "build_cmd target opts =
     [SQLMAP_PATH, ''-u'', target, ''--batch'', ''--disable-coloring''] @ concat (map option_args opts)"

text \<open>\<^verbatim>\<open>sep.join(xs)\<close>.\<close>

fun join :: "string \<Rightarrow> string list \<Rightarrow> string" where
  "join sep [] = []"
| "join sep [x] = x"
| "join sep (x # y # ys) = x @ sep @ join sep (y # ys)"

subsection \<open>String operations of the Python library\<close>

text \<open>
  \<^verbatim>\<open>str.isspace\<close> and \<^verbatim>\<open>str.isalnum\<close> on the code points below 256; the regular
  expression classes \<^verbatim>\<open>\s\<close> and \<^verbatim>\<open>\w\<close> of a \<^verbatim>\<open>str\<close> pattern use the same tables
  (\<^verbatim>\<open>\w\<close> adds the underscore).
\<close>

definition isspace :: "char \<Rightarrow> bool" where
  "isspace c = (let n = (of_char c :: nat) in
     (9 \<le> n \<and> n \<le> 13) \<or> (28 \<le> n \<and> n \<le> 32) \<or> n = 133 \<or> n = 160)"

definition isalnum :: "char \<Rightarrow> bool" where
  "isalnum c = (let n = (of_char c :: nat) in
     (48 \<le> n \<and> n \<le> 57) \<or> (65 \<le> n \<and> n \<le> 90) \<or> (97 \<le> n \<and> n \<le> 122) \<or>
     n = 170 \<or> n = 178 \<or> n = 179 \<or> n = 181 \<or> n = 185 \<or> n = 186 \<or>
     (188 \<le> n \<and> n \<le> 190) \<or> (192 \<le> n \<and> n \<le> 214) \<or> (216 \<le> n \<and> n \<le> 246) \<or>
     (248 \<le> n \<and> n \<le> 255))"

definition isword :: "char \<Rightarrow> bool" where
  "isword c = (isalnum c \<or> c = CHR ''_'')"

text \<open>\<^verbatim>\<open>s.startswith(p)\<close> and \<^verbatim>\<open>sub in s\<close>.\<close>

definition startswith :: "string \<Rightarrow> string \<Rightarrow> bool" where
  "startswith p s = (take (length p) s = p)"

fun contains :: "string \<Rightarrow> string \<Rightarrow> bool" where
  "contains sub [] = (sub = [])"
| "contains sub (c # cs) = (startswith sub (c # cs) \<or> contains sub cs)"

text \<open>\<^verbatim>\<open>s.rstrip()\<close>, \<^verbatim>\<open>s.strip()\<close> and \<^verbatim>\<open>s.strip(chars)\<close>.\<close>

definition rstrip :: "string \<Rightarrow> string" where
  "rstrip s = rev (dropWhile isspace (rev s))"

definition strip :: "string \<Rightarrow> string" where
  "strip s = rstrip (dropWhile isspace s)"

definition strip_chars :: "string \<Rightarrow> string \<Rightarrow> string" where
  "strip_chars chars s =
     rev (dropWhile (\<lambda>c. c \<in> set chars) (rev (dropWhile (\<lambda>c. c \<in> set chars) s)))"

text \<open>
  \<^verbatim>\<open>s.split()\<close>: the maximal runs of non-whitespace characters. \<open>cur\<close> is the run being
  read.
\<close>

fun split_from :: "string \<Rightarrow> string \<Rightarrow> string list" where
  "split_from cur [] = (if cur = [] then [] else [cur])"
| "split_from cur (c # cs) =
     (if isspace c then (if cur = [] then split_from [] cs else cur # split_from [] cs)
      else split_from (cur @ [c]) cs)"

definition split :: "string \<Rightarrow> string list" where
  "split s = split_from [] s"

text \<open>\<^verbatim>\<open>s.replace(old, new)\<close>: every occurrence of \<open>old\<close>, left to right, without overlap.\<close>

function replace :: "string \<Rightarrow> string \<Rightarrow> string \<Rightarrow> string" where
  "replace old new s =
     (if old = [] then new @ concat (map (\<lambda>c. c # new) s)
      else if s = [] then []
      else if startswith old s then new @ replace old new (drop (length old) s)
      else hd s # replace old new (tl s))"
  by pat_completeness auto
termination
  by (relation "measure (\<lambda>(old, new, s). length s)") (auto simp: startswith_def)

declare replace.simps [simp del]

text \<open>
  \<^verbatim>\<open>s.splitlines()\<close>: the line boundaries below code point 256 are \<^verbatim>\<open>\n\<close>, \<^verbatim>\<open>\r\<close>,
  \<^verbatim>\<open>\r\n\<close>, \<^verbatim>\<open>\v\<close>, \<^verbatim>\<open>\f\<close>, \<^verbatim>\<open>\x1c\<close>, \<^verbatim>\<open>\x1d\<close>, \<^verbatim>\<open>\x1e\<close> and \<^verbatim>\<open>\x85\<close>; the
  boundaries are not part of the lines, and no empty last line is produced.
\<close>

definition is_linebreak :: "char \<Rightarrow> bool" where
  "is_linebreak c = (let n = (of_char c :: nat) in
     (10 \<le> n \<and> n \<le> 13) \<or> (28 \<le> n \<and> n \<le> 30) \<or> n = 133)"

fun splitlines_from :: "string \<Rightarrow> string \<Rightarrow> string list" where
  "splitlines_from cur [] = (if cur = [] then [] else [cur])"
| "splitlines_from cur (c # cs) =
     (if c = CHR 13 then
        (case cs of
           [] \<Rightarrow> [cur]
         | d # ds \<Rightarrow> if d = CHR 10 then cur # splitlines_from [] ds else cur # splitlines_from [] cs)
      else if is_linebreak c then cur # splitlines_from [] cs
      else splitlines_from (cur @ [c]) cs)"

definition splitlines :: "string \<Rightarrow> string list" where
  "splitlines s = splitlines_from [] s"

text \<open>\<^verbatim>\<open>xs[-n:]\<close> for a positive \<open>n\<close>: the last \<open>n\<close> elements, or all when there are fewer.\<close>

definition last_n :: "nat \<Rightarrow> 'a list \<Rightarrow> 'a list" where
  "last_n n xs = drop (length xs - n) xs"

subsection \<open>Regular expressions (\<^verbatim>\<open>re.findall\<close>, \<^verbatim>\<open>re.search\<close>)\<close>

text \<open>
  The fragment of Python's pattern language that the module uses: single characters and the
  classes \<^verbatim>\<open>.\<close>, \<^verbatim>\<open>\s\<close>, \<^verbatim>\<open>\w\<close>; concatenation; the greedy \<^verbatim>\<open>+\<close> and the lazy \<^verbatim>\<open>+?\<close>;
  capturing groups. The flag \<^verbatim>\<open>re.DOTALL\<close> lets \<^verbatim>\<open>.\<close> match a newline.
\<close>

datatype cclass = Chr char | Dot | Space | Word

datatype regex =
    Empty
  | Atom cclass
  | Seq regex regex
  | Plus regex
  | PlusLazy regex
  | Group regex

fun cclass_matches :: "bool \<Rightarrow> cclass \<Rightarrow> char \<Rightarrow> bool" where
  "cclass_matches dotall (Chr a) c = (c = a)"
| "cclass_matches dotall Dot c = (dotall \<or> c \<noteq> CHR 10)"
| "cclass_matches dotall Space c = isspace c"
| "cclass_matches dotall Word c = isword c"

text \<open>
  A matcher state is the text still to be read and the groups captured so far, in the order
  in which the groups closed (the groups of the module's patterns are neither nested nor
  repeated, so this is the order of their numbers).

  Python's matcher backtracks: it explores the ways to match in a fixed order of preference
  and takes the first that succeeds. \<open>matches r dotall st\<close> lists the states reached by every
  way of matching \<open>r\<close> from \<open>st\<close>, in that order of preference: a greedy repetition prefers one
  more round to stopping, a lazy one prefers stopping. A round of a repetition that reads
  nothing ends the repetition.
\<close>

type_synonym mstate = "string \<times> string list"

function plus_greedy :: "(mstate \<Rightarrow> mstate list) \<Rightarrow> mstate \<Rightarrow> mstate list" where
  "plus_greedy f st =
     concat (map (\<lambda>st'. (if length (fst st') < length (fst st) then plus_greedy f st' else []) @ [st'])
                 (f st))"
  by pat_completeness auto
termination
  by (relation "measure (\<lambda>(f, st). length (fst st))") auto

function plus_lazy :: "(mstate \<Rightarrow> mstate list) \<Rightarrow> mstate \<Rightarrow> mstate list" where
  "plus_lazy f st =
     concat (map (\<lambda>st'. st' # (if length (fst st') < length (fst st) then plus_lazy f st' else []))
                 (f st))"
  by pat_completeness auto
termination
  by (relation "measure (\<lambda>(f, st). length (fst st))") auto

declare plus_greedy.simps [simp del] plus_lazy.simps [simp del]

primrec matches :: "regex \<Rightarrow> bool \<Rightarrow> mstate \<Rightarrow> mstate list" where
  "matches Empty dotall st = [st]"
| "matches (Atom k) dotall st =
     (case fst st of
        [] \<Rightarrow> []
      | c # cs \<Rightarrow> if cclass_matches dotall k c then [(cs, snd st)] else [])"
| "matches (Seq a b) dotall st = concat (map (matches b dotall) (matches a dotall st))"
| "matches (Plus r) dotall st = plus_greedy (matches r dotall) st"
| "matches (PlusLazy r) dotall st = plus_lazy (matches r dotall) st"
| "matches (Group r) dotall st =
     map (\<lambda>st'. (fst st', snd st' @ [take (length (fst st) - length (fst st')) (fst st)]))
         (matches r dotall st)"

text \<open>A literal text, and a sequence of patterns.\<close>

fun seqs :: "regex list \<Rightarrow> regex" where
  "seqs [] = Empty"
| "seqs [r] = r"
| "seqs (r # r' # rs) = Seq r (seqs (r' # rs))"

definition lit :: "string \<Rightarrow> regex" where
  "lit s = seqs (map (\<lambda>c. Atom (Chr c)) s)"

text \<open>
  \<^verbatim>\<open>pattern.match\<close> at the start of \<open>s\<close>: the rest of the text after the match and the
  groups, or \<open>None\<close>.
\<close>

definition match_at :: "regex \<Rightarrow> bool \<Rightarrow> string \<Rightarrow> (string \<times> string list) option" where
  "match_at r dotall s = (case matches r dotall (s, []) of [] \<Rightarrow> None | st # sts \<Rightarrow> Some st)"

text \<open>
  \<^verbatim>\<open>re.search\<close>: the groups of the leftmost match. \<^verbatim>\<open>re.findall\<close>: the groups of the matches
  found from left to right, each search starting where the last match ended (one character
  further after an empty match).
\<close>

fun search :: "regex \<Rightarrow> bool \<Rightarrow> string \<Rightarrow> string list option" where
  "search r dotall [] = map_option snd (match_at r dotall [])"
| "search r dotall (c # cs) =
     (case match_at r dotall (c # cs) of
        Some st \<Rightarrow> Some (snd st)
      | None \<Rightarrow> search r dotall cs)"

function findall :: "regex \<Rightarrow> bool \<Rightarrow> string \<Rightarrow> string list list" where
  "findall r dotall s =
     (case match_at r dotall s of
        None \<Rightarrow> (if s = [] then [] else findall r dotall (tl s))
      | Some st \<Rightarrow>
          snd st # (if s = [] then []
                    else if length (fst st) < length s then findall r dotall (fst st)
                    else findall r dotall (tl s)))"
  by pat_completeness auto
termination
  by (relation "measure (\<lambda>(r, dotall, s). length s)") (auto simp: neq_Nil_conv)

declare findall.simps [simp del]



subsection \<open>The patterns of the module\<close>

definition dots_lazy :: regex where
  "dots_lazy = PlusLazy (Atom Dot)"

definition spaces :: regex where
  "spaces = Plus (Atom Space)"

text \<open>\<^verbatim>\<open>\s+Type: X\n\s+Title: X\n\s+Payload: X\n\<close>, where \<open>x\<close> stands for \<^verbatim>\<open>.+?\<close> or \<^verbatim>\<open>(.+?)\<close>.\<close>

definition vuln_record :: "regex \<Rightarrow> regex" where
  "vuln_record x =
     seqs [spaces, lit ''Type: '', x, lit [CHR 10],
           spaces, lit ''Title: '', x, lit [CHR 10],
           spaces, lit ''Payload: '', x, lit [CHR 10]]"

text \<open>\<^verbatim>\<open>Parameter: (.+?) \(.+?\)\n((?:\s+Type: .+?\n\s+Title: .+?\n\s+Payload: .+?\n)+)\<close>\<close>

definition injection_re :: regex where
  "injection_re =
     seqs [lit ''Parameter: '', Group dots_lazy, lit '' ('', dots_lazy, lit ('')'' @ [CHR 10]),
           Group (Plus (vuln_record dots_lazy))]"

text \<open>\<^verbatim>\<open>\s+Type: (.+?)\n\s+Title: (.+?)\n\s+Payload: (.+?)\n\<close>\<close>

definition vuln_re :: regex where
  "vuln_re = vuln_record (Group dots_lazy)"

text \<open>\<^verbatim>\<open>(\w+) parameter '(.+?)' (is vulnerable.+)\<close>\<close>

definition alt_re :: regex where
  "alt_re =
     seqs [Group (Plus (Atom Word)), lit '' parameter '', lit [CHR 39], Group dots_lazy,
           lit [CHR 39], lit '' '', Group (Seq (lit ''is vulnerable'') (Plus (Atom Dot)))]"

text \<open>\<^verbatim>\<open>back-end DBMS: (.+?)\n\<close>\<close>

definition dbms_re :: regex where
  "dbms_re = seqs [lit ''back-end DBMS: '', Group dots_lazy, lit [CHR 10]]"

text \<open>\<^verbatim>\<open>sqlmap identified the following injection point\(s\):(.+?)\n\n\<close>\<close>

definition summary_re :: regex where
  "summary_re =
     seqs [lit ''sqlmap identified the following injection point(s):'', Group dots_lazy,
           lit [CHR 10, CHR 10]]"

text \<open>\<^verbatim>\<open>\[ERROR\] (.+)\<close>\<close>

definition error_re :: regex where
  "error_re = seqs [lit ''[ERROR] '', Group (Plus (Atom Dot))]"

subsection \<open>Extraction of findings (\<^verbatim>\<open>parse_scan_results_from_output\<close>)\<close>

text \<open>Stage 1 (lines 167--188): the injection points and the records of each block.\<close>

definition block_findings :: "string \<Rightarrow> string \<Rightarrow> finding list" where
  "block_findings param vuln_block =
     concat (map (\<lambda>vuln. case vuln of
                    [vuln_type, ttl, pl] \<Rightarrow>
                      [\<lparr>parameter = Some param, ftype = strip vuln_type, title = Some (strip ttl),
                        payload = Some (strip pl), info = None\<rparr>]
                  | _ \<Rightarrow> [])
                 (findall vuln_re True vuln_block))"

definition stage1 :: "string \<Rightarrow> finding list" where
  "stage1 out =
     concat (map (\<lambda>point. case point of
                    [param, vuln_block] \<Rightarrow> block_findings param vuln_block
                  | _ \<Rightarrow> [])
                 (findall injection_re True out))"

text \<open>Stage 2 (lines 190--200): the alternative pattern, tried when there are no results.\<close>

definition alt_findings :: "string \<Rightarrow> finding list" where
  "alt_findings out =
     concat (map (\<lambda>point. case point of
                    [method, param, details] \<Rightarrow>
                      [\<lparr>parameter = Some param, ftype = method @ '' - '' @ details, title = None,
                        payload = None, info = None\<rparr>]
                  | _ \<Rightarrow> [])
                 (findall alt_re False out))"

definition stage2 :: "string \<Rightarrow> finding list \<Rightarrow> finding list" where
  "stage2 out rs = (if rs = [] then rs @ alt_findings out else rs)"

text \<open>Stage 3 (lines 202--211): the database system.\<close>

definition dbms_findings :: "string \<Rightarrow> finding list" where
  "dbms_findings out =
     (case search dbms_re False out of
        Some [db] \<Rightarrow>
          [\<lparr>parameter = None, ftype = ''DBMS'', title = None, payload = None, info = Some (strip db)\<rparr>]
      | _ \<Rightarrow> [])"

definition stage3 :: "string \<Rightarrow> finding list \<Rightarrow> finding list" where
  "stage3 out rs = rs @ dbms_findings out"

text \<open>Stage 4 (lines 213--220): the critical lines that report a vulnerability.\<close>

definition critical_finding :: "string \<Rightarrow> finding" where
  "critical_finding line =
     \<lparr>parameter = None, ftype = ''CRITICAL'', title = None, payload = None,
      info = Some (replace ''[CRITICAL] '' [] line)\<rparr>"

definition critical_findings :: "string list option \<Rightarrow> finding list" where
  "critical_findings crit =
     (case crit of
        None \<Rightarrow> []
      | Some lines \<Rightarrow> map critical_finding (filter (contains ''is vulnerable'') lines))"

definition stage4 :: "string list option \<Rightarrow> finding list \<Rightarrow> finding list" where
  "stage4 crit rs = rs @ critical_findings crit"

text \<open>
  Stage 5 (lines 222--227): the vulnerabilities noted while reading, each added unless some
  result so far (an earlier addition of this loop included) has its parameter.
\<close>

fun add_vulnerabilities :: "finding list \<Rightarrow> vulnerability list \<Rightarrow> finding list" where
  "add_vulnerabilities rs [] = rs"
| "add_vulnerabilities rs (vuln # vulns) =
     add_vulnerabilities
       (if \<not> list_ex (\<lambda>r. parameter r = Some (vparameter vuln)) rs then rs @ [as_finding vuln] else rs)
       vulns"

definition stage5 :: "vulnerability list option \<Rightarrow> finding list \<Rightarrow> finding list" where
  "stage5 live rs = (case live of None \<Rightarrow> rs | Some vulns \<Rightarrow> add_vulnerabilities rs vulns)"

text \<open>The list \<^verbatim>\<open>results\<close> at line 229.\<close>

definition extract_results ::
  "string \<Rightarrow> string list option \<Rightarrow> vulnerability list option \<Rightarrow> finding list" where
  "extract_results out crit live = stage5 live (stage4 crit (stage3 out (stage2 out (stage1 out))))"

text \<open>The pair that identifies a finding when duplicates are counted.\<close>

definition dedup_key :: "finding \<Rightarrow> string option \<times> string" where
  "dedup_key f = (parameter f, ftype f)"

text \<open>
  The function on one task dictionary. Nothing in the body can raise on a dictionary of
  this shape, so the handler of line 232 is reached only for an unknown task id.
\<close>

definition parse_task :: "task \<Rightarrow> task" where
  "parse_task t =
     (case output_buffer t of
        None \<Rightarrow> t
      | Some out \<Rightarrow>
          (let rs = extract_results out (critical_lines t) (vulnerabilities t)
           in if rs \<noteq> [] then t\<lparr>results := Some rs\<rparr> else t))"

definition parse_scan_results_from_output :: "string \<Rightarrow> tasks \<Rightarrow> tasks" where
  "parse_scan_results_from_output task_id tasks =
     (case tasks task_id of
        None \<Rightarrow> tasks
      | Some t \<Rightarrow> tasks(task_id \<mapsto> parse_task t))"

subsection \<open>Running a scan (\<^verbatim>\<open>run_sqlmap_scan\<close>)\<close>

text \<open>
  The external process, as the coroutine meets it. \<^verbatim>\<open>create_subprocess_exec\<close> raises
  (\<open>SpawnFails\<close>, with the text of the exception) or gives a process with two streams and an
  exit status. A stream is the list of what its \<^verbatim>\<open>readline\<close> calls give before the end of
  the stream: the decoded text of a non-empty chunk of bytes, or an exception (a line over
  the stream's limit). At the end of a stream \<^verbatim>\<open>readline\<close> gives \<^verbatim>\<open>b""\<close> and \<^verbatim>\<open>at_eof()\<close>
  holds.
\<close>

datatype chunk = Data string | Fails string

datatype process = SpawnFails string | Spawned "chunk list" "chunk list" int

text \<open>
  A block of statements ends normally in a task dictionary, or raises: \<open>Raised t e\<close> has the
  dictionary as the statements before the raise left it and \<^verbatim>\<open>str(e)\<close>. A missing key
  raises \<^verbatim>\<open>KeyError\<close>, whose text is the quoted key.
\<close>

datatype outcome = Done task | Raised task string

fun and_then :: "outcome \<Rightarrow> (task \<Rightarrow> outcome) \<Rightarrow> outcome" where
  "and_then (Done t) f = f t"
| "and_then (Raised t e) f = Raised t e"

definition append_output :: "string \<Rightarrow> task \<Rightarrow> outcome" where
  "append_output s t =
     (case output_buffer t of
        None \<Rightarrow> Raised t ([CHR 39] @ ''output'' @ [CHR 39])
      | Some out \<Rightarrow> Done (t\<lparr>output_buffer := Some (out @ s)\<rparr>))"

definition append_critical :: "string \<Rightarrow> task \<Rightarrow> outcome" where
  "append_critical line t =
     (case critical_lines t of
        None \<Rightarrow> Raised t ([CHR 39] @ ''critical_lines'' @ [CHR 39])
      | Some ls \<Rightarrow> Done (t\<lparr>critical_lines := Some (ls @ [line])\<rparr>))"

definition append_vulnerability :: "vulnerability \<Rightarrow> task \<Rightarrow> outcome" where
  "append_vulnerability v t =
     (case vulnerabilities t of
        None \<Rightarrow> Raised t ([CHR 39] @ ''vulnerabilities'' @ [CHR 39])
      | Some vs \<Rightarrow> Done (t\<lparr>vulnerabilities := Some (vs @ [v])\<rparr>))"

definition append_error :: "string \<Rightarrow> task \<Rightarrow> task" where
  "append_error line t =
     t\<lparr>errors := Some ((case errors t of None \<Rightarrow> [] | Some es \<Rightarrow> es) @ [line])\<rparr>"

text \<open>Lines 40--55: from the entry of the coroutine to the first \<^verbatim>\<open>await\<close>.\<close>

definition start_scan :: "string \<Rightarrow> (string \<times> pyvalue) list \<Rightarrow> task \<Rightarrow> task" where
  "start_scan target opts t =
     t\<lparr>status := RUNNING,
       command := Some (join '' '' (build_cmd target opts)),
       output_buffer := Some [],
       critical_lines := Some [],
       vulnerabilities := Some []\<rparr>"

text \<open>Lines 67--84: a line of standard output.\<close>

definition on_stdout :: "string \<Rightarrow> task \<Rightarrow> outcome" where
  "on_stdout stdout_line t =
     (let line = rstrip stdout_line in
      and_then (append_output (line @ [CHR 10]) t) (\<lambda>t.
      and_then (if contains ''[CRITICAL]'' line then append_critical line t else Done t) (\<lambda>t.
        if contains ''is vulnerable'' line \<and> contains ''parameter'' line then
          (let parts = split line in
           if length parts > 3 then
             append_vulnerability
               \<lparr>vparameter = strip_chars [CHR 39] (parts ! 1), vtype = join '' '' (drop 3 parts)\<rparr> t
           else Done t)
        else Done t)))"

text \<open>Lines 88--93: a line of standard error.\<close>

definition on_stderr :: "string \<Rightarrow> task \<Rightarrow> outcome" where
  "on_stderr stderr_line t =
     (let line = rstrip stderr_line in
      and_then (append_output (''[ERROR] '' @ line @ [CHR 10]) t) (\<lambda>t. Done (append_error line t)))"

text \<open>\<^verbatim>\<open>await stream.readline()\<close> and the statements under the \<^verbatim>\<open>if\<close> that follows it.\<close>

definition read_stdout :: "chunk list \<Rightarrow> task \<Rightarrow> outcome" where
  "read_stdout outs t =
     (case outs of
        [] \<Rightarrow> Done t
      | Data stdout_line # rest \<Rightarrow> on_stdout stdout_line t
      | Fails e # rest \<Rightarrow> Raised t e)"

definition read_stderr :: "chunk list \<Rightarrow> task \<Rightarrow> outcome" where
  "read_stderr errs t =
     (case errs of
        [] \<Rightarrow> Done t
      | Data stderr_line # rest \<Rightarrow> on_stderr stderr_line t
      | Fails e # rest \<Rightarrow> Raised t e)"

text \<open>
  The loop of lines 65--96. The coroutine is suspended only at an \<^verbatim>\<open>await\<close>, and only
  there can another coroutine (a status query) see the task: the first component of the
  result lists the task as it is at each \<^verbatim>\<open>await\<close> of the loop, in order. One round reads
  one line of standard output, then one line of standard error; the loop ends when both
  streams are at their end. (A stream whose end is not yet known when its last line has
  been read costs one more round, in which its \<^verbatim>\<open>readline\<close> gives \<^verbatim>\<open>b""\<close> and nothing is
  stored; the lists leave these rounds out.)
\<close>

function read_loop :: "task \<Rightarrow> chunk list \<Rightarrow> chunk list \<Rightarrow> task list \<times> outcome" where
  "read_loop t outs errs =
     (case read_stdout outs t of
        Raised t1 e \<Rightarrow> ([t], Raised t1 e)
      | Done t1 \<Rightarrow>
          (case read_stderr errs t1 of
             Raised t2 e \<Rightarrow> ([t, t1], Raised t2 e)
           | Done t2 \<Rightarrow>
               if tl outs = [] \<and> tl errs = [] then ([t, t1], Done t2)
               else (let (seen, r) = read_loop t2 (tl outs) (tl errs) in (t # t1 # seen, r))))"
  by pat_completeness auto
termination
proof (relation "measure (\<lambda>(t, outs, errs). length outs + length errs)")
  fix t t1 t2 :: task and outs errs :: "chunk list"
  assume "\<not> (tl outs = [] \<and> tl errs = [])"
  then show "((t2, tl outs, tl errs), (t, outs, errs))
               \<in> measure (\<lambda>(t, outs, errs). length outs + length errs)"
    by (cases outs; cases errs; simp)
qed simp

declare read_loop.simps [simp del]

text \<open>
  The task of an outcome, and the relation between a task and a later one that the reading
  loop maintains: the state, the command and the results are as before, and an output
  buffer that was present is present.
\<close>

fun state_of :: "outcome \<Rightarrow> task" where
  "state_of (Done t) = t"
| "state_of (Raised t e) = t"

definition kept :: "task \<Rightarrow> task \<Rightarrow> bool" where
  "kept t t' =
     (status t' = status t \<and> command t' = command t \<and> results t' = results t \<and>
      (output_buffer t = None \<or> output_buffer t' \<noteq> None))"

text \<open>Lines 101--111: after \<^verbatim>\<open>process.wait()\<close>; \<open>now\<close> is the clock.\<close>

definition finish_scan :: "int \<Rightarrow> real \<Rightarrow> task \<Rightarrow> task" where
  "finish_scan rc now t =
     (let t' = (if rc = 0 then parse_task (t\<lparr>status := COMPLETED\<rparr>) else t\<lparr>status := FAILED\<rparr>)
      in t'\<lparr>return_code := Some rc, end_time := Some now\<rparr>)"

text \<open>Lines 113--118: the exception handler.\<close>

definition on_exception :: "string \<Rightarrow> real \<Rightarrow> task \<Rightarrow> task" where
  "on_exception e now t = t\<lparr>status := FAILED, error := Some e, end_time := Some now\<rparr>"

text \<open>
  The coroutine on the task's dictionary: the dictionary before the coroutine starts, then
  at each \<^verbatim>\<open>await\<close>, then as the coroutine leaves it.
\<close>

definition run_task :: "string \<Rightarrow> (string \<times> pyvalue) list \<Rightarrow> process \<Rightarrow> real \<Rightarrow> task \<Rightarrow> task list" where
  "run_task target opts proc now t =
     (let t1 = start_scan target opts t in
      case proc of
        SpawnFails e \<Rightarrow> [t, t1, on_exception e now t1]
      | Spawned outs errs rc \<Rightarrow>
          (case read_loop t1 outs errs of
             (seen, Raised t2 e) \<Rightarrow> [t, t1] @ seen @ [on_exception e now t2]
           | (seen, Done t2) \<Rightarrow> [t, t1] @ seen @ [t2, finish_scan rc now t2]))"

text \<open>
  The coroutine on the dictionary of tasks. All its stores go to the entry of \<open>task_id\<close>,
  and no code of the module removes an entry.
\<close>

definition run_sqlmap_scan ::
  "string \<Rightarrow> string \<Rightarrow> (string \<times> pyvalue) list \<Rightarrow> process \<Rightarrow> real \<Rightarrow> tasks \<Rightarrow> tasks list" where
  "run_sqlmap_scan task_id target opts proc now tasks =
     (case tasks task_id of
        None \<Rightarrow> [tasks]
      | Some t \<Rightarrow> map (\<lambda>t'. tasks(task_id \<mapsto> t')) (run_task target opts proc now t))"

text \<open>The entry that \<^verbatim>\<open>ExecSqlmap\<close> stores for a new task (lines 371--378).\<close>

definition new_task :: "string \<Rightarrow> (string \<times> pyvalue) list \<Rightarrow> real \<Rightarrow> task" where
  "new_task url opts now =
     \<lparr>status = QUEUED, target_url = url, options = opts, start_time = Some now,
      output_buffer = Some [], results = None, command = None, critical_lines = None,
      vulnerabilities = None, errors = None, return_code = None, end_time = None,
      error = None, parse_error = None\<rparr>"

subsection \<open>The reading loop and a process that waits on a full pipe\<close>

text \<open>
  What the loop appends to the output buffer for a line of standard output and of standard
  error, two lists taken in turn (the first of one, the first of the other, the second of
  one, ...), and a task that has the keys the loop appends to.
\<close>

fun in_turn :: "'a list \<Rightarrow> 'a list \<Rightarrow> 'a list" where
  "in_turn [] [] = []"
| "in_turn [] (y # ys) = y # in_turn [] ys"
| "in_turn (x # xs) [] = x # in_turn xs []"
| "in_turn (x # xs) (y # ys) = x # y # in_turn xs ys"

definition stdout_text :: "string \<Rightarrow> string" where
  "stdout_text stdout_line = rstrip stdout_line @ [CHR 10]"

definition stderr_text :: "string \<Rightarrow> string" where
  "stderr_text stderr_line = ''[ERROR] '' @ rstrip stderr_line @ [CHR 10]"

definition ready :: "task \<Rightarrow> bool" where
  "ready t = (output_buffer t \<noteq> None \<and> critical_lines t \<noteq> None \<and> vulnerabilities t \<noteq> None)"


text \<open>
  The loop's reads wait: \<^verbatim>\<open>await stream.readline()\<close> returns when the stream has a line or has
  ended. To say what this means for a process that writes while the loop waits, the loop is
  put next to a process. The process has the lines it still wants to write, each to one of
  its two streams (\<open>script\<close>); a pipe holds at most \<open>cap\<close> lines that are written and not
  yet read, and the process waits while the pipe it wants to write to is full (the number
  of lines stands for the bytes that the stream reader and the pipe of the operating
  system hold); when it has written everything the process ends and its streams are
  closed. The coroutine is at one of the two \<^verbatim>\<open>readline\<close> calls of the loop (\<open>waiting\<close>) or
  has left the loop (\<open>left_loop\<close>). A read takes the first unread line of its stream, or
  sees the end of the stream once the process has ended, and runs the statements of the
  loop that follow the read (\<open>read_stdout\<close>, \<open>read_stderr\<close>); after the read of standard
  error the loop is left when both streams are at their end.
\<close>

datatype fd = Stdout | Stderr

record world =
  script :: "(fd \<times> string) list"
  out_pipe :: "string list"
  err_pipe :: "string list"
  waiting :: fd
  entry :: task
  left_loop :: bool

definition process_can_write :: "nat \<Rightarrow> world \<Rightarrow> bool" where
  "process_can_write cap w =
     (case script w of
        [] \<Rightarrow> False
      | (Stdout, line) # rest \<Rightarrow> length (out_pipe w) < cap
      | (Stderr, line) # rest \<Rightarrow> length (err_pipe w) < cap)"

definition process_write :: "world \<Rightarrow> world" where
  "process_write w =
     (case script w of
        [] \<Rightarrow> w
      | (Stdout, line) # rest \<Rightarrow> w\<lparr>script := rest, out_pipe := out_pipe w @ [line]\<rparr>
      | (Stderr, line) # rest \<Rightarrow> w\<lparr>script := rest, err_pipe := err_pipe w @ [line]\<rparr>)"

definition consumer_can_read :: "world \<Rightarrow> bool" where
  "consumer_can_read w =
     (\<not> left_loop w \<and>
      (case waiting w of
         Stdout \<Rightarrow> out_pipe w \<noteq> [] \<or> script w = []
       | Stderr \<Rightarrow> err_pipe w \<noteq> [] \<or> script w = []))"

definition consumer_read :: "world \<Rightarrow> world" where
  "consumer_read w =
     (case waiting w of
        Stdout \<Rightarrow>
          (case read_stdout (map Data (out_pipe w)) (entry w) of
             Raised t e \<Rightarrow> w\<lparr>entry := t, left_loop := True\<rparr>
           | Done t \<Rightarrow> w\<lparr>out_pipe := tl (out_pipe w), entry := t, waiting := Stderr\<rparr>)
      | Stderr \<Rightarrow>
          (case read_stderr (map Data (err_pipe w)) (entry w) of
             Raised t e \<Rightarrow> w\<lparr>entry := t, left_loop := True\<rparr>
           | Done t \<Rightarrow>
               if script w = [] \<and> out_pipe w = [] \<and> tl (err_pipe w) = []
               then w\<lparr>err_pipe := tl (err_pipe w), entry := t, left_loop := True\<rparr>
               else w\<lparr>err_pipe := tl (err_pipe w), entry := t, waiting := Stdout\<rparr>))"

definition stalled :: "nat \<Rightarrow> world \<Rightarrow> bool" where
  "stalled cap w = (\<not> left_loop w \<and> \<not> process_can_write cap w \<and> \<not> consumer_can_read w)"


subsection \<open>The status query (\<^verbatim>\<open>get_scan_status\<close>)\<close>

text \<open>
  The dictionary that the query returns for a known task; an absent key is \<open>None\<close>.
  \<open>elapsed_time\<close> is the number that the code renders with two decimals and the unit
  \<^verbatim>\<open>s\<close>; the rendering is left out.
\<close>

record report =
  rep_task_id :: string
  rep_status :: ScanStatus
  rep_target_url :: string
  elapsed_time :: "real option"
  rep_results :: "finding list option"
  partial_output :: "string option"
  summary :: "string option"
  rep_error :: "string option"
  rep_command :: "string option"

text \<open>Lines 253--257.\<close>

definition elapsed_of :: "real \<Rightarrow> task \<Rightarrow> real option" where
  "elapsed_of current_time t =
     (case start_time t of
        None \<Rightarrow> None
      | Some started \<Rightarrow> Some (current_time - started))"

text \<open>Lines 259--261: the results, when the key holds a non-empty list.\<close>

definition results_of :: "task \<Rightarrow> finding list option" where
  "results_of t = (case results t of None \<Rightarrow> None | Some rs \<Rightarrow> if rs \<noteq> [] then Some rs else None)"

text \<open>Lines 263--267.\<close>

definition partial_output_of :: "task \<Rightarrow> string option" where
  "partial_output_of t =
     (if status t = RUNNING then
        (case output_buffer t of
           None \<Rightarrow> None
         | Some out \<Rightarrow> Some (join [CHR 10] (last_n 20 (splitlines out))))
      else None)"

text \<open>Lines 269--281.\<close>

definition summary_of :: "task \<Rightarrow> string option" where
  "summary_of t =
     (if status t = COMPLETED then
        (case output_buffer t of
           None \<Rightarrow> None
         | Some out \<Rightarrow>
             (case search summary_re True out of
                Some [found] \<Rightarrow> Some (strip found)
              | _ \<Rightarrow> Some (if results_of t = None then ''No vulnerabilities found''
                           else ''Vulnerabilities detected'')))
      else None)"

text \<open>Lines 283--293.\<close>

definition error_of :: "task \<Rightarrow> string option" where
  "error_of t =
     (if status t = FAILED then
        (case error t of
           Some e \<Rightarrow> Some e
         | None \<Rightarrow>
             if errors t \<noteq> None \<and> errors t \<noteq> Some [] then map_option last (errors t)
             else (case output_buffer t of
                     None \<Rightarrow> None
                   | Some out \<Rightarrow>
                       (case search error_re False out of
                          Some [found] \<Rightarrow> Some found
                        | _ \<Rightarrow> None)))
      else None)"

definition report_of :: "string \<Rightarrow> real \<Rightarrow> task \<Rightarrow> report" where
  "report_of task_id current_time t =
     \<lparr>rep_task_id = task_id, rep_status = status t, rep_target_url = target_url t,
      elapsed_time = elapsed_of current_time t,
      rep_results = results_of t,
      partial_output = partial_output_of t,
      summary = summary_of t,
      rep_error = error_of t,
      rep_command = command t\<rparr>"

text \<open>
  The query on the dictionary of tasks, at the clock value \<open>current_time\<close>: the answer
  (\<open>Inl\<close>: the error for an unknown id) and the dictionary of tasks afterwards. The function
  has no store to a task.
\<close>

definition get_scan_status :: "string \<Rightarrow> real \<Rightarrow> tasks \<Rightarrow> (string + report) \<times> tasks" where
  "get_scan_status task_id current_time tasks =
     (case tasks task_id of
        None \<Rightarrow> (Inl ''Invalid task ID'', tasks)
      | Some t \<Rightarrow> (Inr (report_of task_id current_time t), tasks))"

subsection \<open>Example runs\<close>

text \<open>
  A line as sqlmap prints it for an injectable parameter, a scan of one such line that
  exits with status 0 at time 10, the same scan exiting with status 1, a scan that reads
  the line twice, a scan of two lines that name a parameter without matching the pattern
  of stage 2, a dictionary of tasks
  with one new task, and a scan of 25 lines at the moment it waits for the process to exit.
\<close>

definition vulnerable_line :: string where
  "vulnerable_line =
     ''GET parameter '' @ [CHR 39] @ ''id'' @ [CHR 39] @ '' is vulnerable. Do you'' @ [CHR 10]"

definition completed_run :: "task list" where
  "completed_run =
     run_task ''http://h/?id=1'' [] (Spawned [Data vulnerable_line] [] 0) 10
       (new_task ''http://h/?id=1'' [] 0)"

definition failed_run :: "task list" where
  "failed_run =
     run_task ''http://h/?id=1'' [] (Spawned [Data vulnerable_line] [] 1) 10
       (new_task ''http://h/?id=1'' [] 0)"

definition duplicate_run :: "task list" where
  "duplicate_run =
     run_task ''http://h/?id=1'' []
       (Spawned [Data vulnerable_line, Data vulnerable_line] [] 0) 10
       (new_task ''http://h/?id=1'' [] 0)"




text \<open>
  A process that writes three lines to standard output and nothing to standard error, with
  the task of a scan that has just started.
\<close>

definition chatty_process :: world where
  "chatty_process =
     \<lparr>script = [(Stdout, ''line 1''), (Stdout, ''line 2''), (Stdout, ''line 3'')],
      out_pipe = [], err_pipe = [], waiting = Stdout,
      entry = start_scan ''http://h/?id=1'' [] (new_task ''http://h/?id=1'' [] 0),
      left_loop = False\<rparr>"

definition example_tasks :: tasks where
  "example_tasks = Map.empty(''t1'' \<mapsto> new_task ''http://h/?id=1'' [] 0)"


section \<open>Properties\<close>

subsection \<open>The command line\<close>

lemma startswith_contains: "startswith sub s \<Longrightarrow> contains sub s"
  by (cases s) (auto simp: startswith_def)

lemma contains_prefix: "contains sub (sub @ s)"
  by (rule startswith_contains) (simp add: startswith_def)

lemma contains_append: "contains sub s \<Longrightarrow> contains sub (p @ s)"
  by (induction p) auto

lemma contains_middle: "contains sub (p @ sub @ s)"
  by (rule contains_append) (rule contains_prefix)

lemma contains_join: "x \<in> set xs \<Longrightarrow> contains x (join sep xs)"
proof (induction sep xs rule: join.induct)
  case (1 sep)
  then show ?case by simp
next
  case (2 sep y)
  then show ?case using contains_prefix [of x "[]"] by simp
next
  case (3 sep a b ys)
  show ?case
  proof (cases "x = a")
    case True
    then show ?thesis using contains_prefix [of a "sep @ join sep (b # ys)"] by simp
  next
    case False
    with 3 have "contains x (join sep (b # ys))" by simp
    then have "contains x ((a @ sep) @ join sep (b # ys))" by (rule contains_append)
    then show ?thesis by simp
  qed
qed

lemma false_option_args: "option_args (name, PyBool False) = [''--'' @ name @ ''=False'']"
  by (simp add: option_args_def)

text \<open>
  Claim C10. An option whose value is the boolean false is not left out of the command
  line: it falls through the test for a true boolean to the branch for numbers, since a
  Python \<^verbatim>\<open>bool\<close> is an \<^verbatim>\<open>int\<close>, and gives the argument \<^verbatim>\<open>--name=False\<close>. The argument is in
  the argument list, the stored command is the list joined by blanks, and the argument
  occurs in that text.
\<close>

theorem false_flag_in_command:
  assumes "(name, PyBool False) \<in> set opts"
  shows "(''--'' @ name @ ''=False'') \<in> set (build_cmd target opts)
       \<and> command (start_scan target opts t) = Some (join '' '' (build_cmd target opts))
       \<and> contains (''--'' @ name @ ''=False'') (join '' '' (build_cmd target opts))"
proof -
  have "(''--'' @ name @ ''=False'') \<in> set (option_args (name, PyBool False))"
    by (simp add: false_option_args)
  with assms have "(''--'' @ name @ ''=False'') \<in> set (concat (map option_args opts))"
    unfolding set_concat set_map by blast
  then have m: "(''--'' @ name @ ''=False'') \<in> set (build_cmd target opts)"
    unfolding build_cmd_def by simp
  from m have "contains (''--'' @ name @ ''=False'') (join '' '' (build_cmd target opts))"
    by (rule contains_join)
  with m show ?thesis by (simp add: start_scan_def)
qed

theorem false_flag_in_command_witness:
  "(''forms'', PyBool False) \<in> set [(''level'', PyInt 3), (''forms'', PyBool False)]
   \<and> command (start_scan ''http://h/?id=1'' [(''level'', PyInt 3), (''forms'', PyBool False)]
                 (new_task ''http://h/?id=1'' [(''level'', PyInt 3), (''forms'', PyBool False)] 0))
     = Some ''sqlmap -u http://h/?id=1 --batch --disable-coloring --level=3 --forms=False''"
  using false_flag_in_command [of "''forms''" "[(''level'', PyInt 3), (''forms'', PyBool False)]"
      "''http://h/?id=1''" "new_task ''http://h/?id=1'' [(''level'', PyInt 3), (''forms'', PyBool False)] 0"]
  by (simp add: build_cmd_def option_args_def SQLMAP_PATH_def str_int_def str_nat.simps digit_char_def startswith_def)

subsection \<open>Extraction\<close>

lemma parse_task_idem: "parse_task (parse_task t) = parse_task t"
  by (cases "output_buffer t") (simp_all add: parse_task_def Let_def)

text \<open>
  Claim C6. Extraction is idempotent: running \<^verbatim>\<open>parse_scan_results_from_output\<close> a second
  time on a task leaves the dictionary of tasks, and so the findings of the task, as the
  first run left them. The function reads the output buffer, the critical lines and the
  vulnerabilities noted while reading, and stores only the results.
\<close>

theorem extraction_idempotent:
  "parse_scan_results_from_output task_id (parse_scan_results_from_output task_id tasks)
   = parse_scan_results_from_output task_id tasks"
  by (cases "tasks task_id") (simp_all add: parse_scan_results_from_output_def parse_task_idem)

lemma block_findings_parameter: "f \<in> set (block_findings param blk) \<Longrightarrow> parameter f = Some param"
  by (auto simp: block_findings_def split: list.splits)

lemma stage1_parameter: "f \<in> set (stage1 out) \<Longrightarrow> parameter f \<noteq> None"
  by (auto simp: stage1_def split: list.splits dest: block_findings_parameter)

lemma alt_findings_parameter: "f \<in> set (alt_findings out) \<Longrightarrow> parameter f \<noteq> None"
  by (auto simp: alt_findings_def split: list.splits)

lemma dbms_findings_key: "f \<in> set (dbms_findings out) \<Longrightarrow> dedup_key f = (None, ''DBMS'')"
  by (auto simp: dbms_findings_def dedup_key_def split: option.splits list.splits)

lemma critical_findings_key: "f \<in> set (critical_findings crit) \<Longrightarrow> dedup_key f = (None, ''CRITICAL'')"
  by (auto simp: critical_findings_def critical_finding_def dedup_key_def split: option.splits)

lemma add_vulnerabilities_appends:
  "\<exists>added. add_vulnerabilities rs vulns = rs @ added \<and>
     (\<forall>f \<in> set added. parameter f \<noteq> None \<and> parameter f \<notin> parameter ` set rs) \<and>
     distinct (map parameter added)"
proof (induction vulns arbitrary: rs)
  case Nil
  show ?case by simp
next
  case (Cons v vulns)
  show ?case
  proof (cases "list_ex (\<lambda>r. parameter r = Some (vparameter v)) rs")
    case True
    with Cons [of rs] show ?thesis by simp
  next
    case False
    then have new: "Some (vparameter v) \<notin> parameter ` set rs"
      by (auto simp: list_ex_iff)
    from Cons [of "rs @ [as_finding v]"] obtain added where
      a: "add_vulnerabilities (rs @ [as_finding v]) vulns = (rs @ [as_finding v]) @ added"
      and b: "\<forall>f \<in> set added. parameter f \<noteq> None \<and> parameter f \<notin> parameter ` set (rs @ [as_finding v])"
      and c: "distinct (map parameter added)"
      by blast
    have p: "parameter (as_finding v) = Some (vparameter v)"
      by (simp add: as_finding_def)
    from False a have "add_vulnerabilities rs (v # vulns) = rs @ (as_finding v # added)"
      by simp
    moreover from b new p have "\<forall>f \<in> set (as_finding v # added).
        parameter f \<noteq> None \<and> parameter f \<notin> parameter ` set rs"
      by auto
    moreover from b c p have "distinct (map parameter (as_finding v # added))"
      by auto
    ultimately show ?thesis by blast
  qed
qed

lemma stage5_appends:
  "\<exists>added. stage5 live rs = rs @ added \<and>
     (\<forall>f \<in> set added. parameter f \<noteq> None \<and> parameter f \<notin> parameter ` set rs) \<and>
     distinct (map parameter added)"
proof (cases live)
  case None
  then show ?thesis by (simp add: stage5_def)
next
  case (Some vulns)
  with add_vulnerabilities_appends [of rs vulns] show ?thesis by (simp add: stage5_def)
qed

lemma extract_results_stages:
  "extract_results out crit live =
     stage5 live (stage1 out @ (if stage1 out = [] then alt_findings out else [])
                  @ dbms_findings out @ critical_findings crit)"
  by (simp add: extract_results_def stage2_def stage3_def stage4_def)

text \<open>
  Claim C2, amended. The results are the findings of stage 1, then those of stage 2 (none
  unless stage 1 gave none), then those of stages 3 and 4, then the vulnerabilities that
  stage 5 adds. No finding of a stage has the parameter and type of a finding of an earlier
  stage, the findings of the earlier stages are all kept, and the vulnerabilities that
  stage 5 adds differ pairwise in parameter and type. Stages 1 to 4 themselves may give
  the same parameter and type more than once.
\<close>

theorem later_stage_adds_no_earlier_key:
  "\<exists>second added.
     second = (if stage1 out = [] then alt_findings out else []) \<and>
     extract_results out crit live
       = stage1 out @ second @ dbms_findings out @ critical_findings crit @ added \<and>
     dedup_key ` set second \<inter> dedup_key ` set (stage1 out) = {} \<and>
     dedup_key ` set (dbms_findings out) \<inter> dedup_key ` set (stage1 out @ second) = {} \<and>
     dedup_key ` set (critical_findings crit)
       \<inter> dedup_key ` set (stage1 out @ second @ dbms_findings out) = {} \<and>
     dedup_key ` set added
       \<inter> dedup_key ` set (stage1 out @ second @ dbms_findings out @ critical_findings crit) = {} \<and>
     distinct (map dedup_key added)"
proof -
  define second where "second = (if stage1 out = [] then alt_findings out else [])"
  let ?early = "stage1 out @ second @ dbms_findings out @ critical_findings crit"
  from stage5_appends [of live ?early] obtain added where
    a: "stage5 live ?early = ?early @ added"
    and b: "\<forall>f \<in> set added. parameter f \<noteq> None \<and> parameter f \<notin> parameter ` set ?early"
    and c: "distinct (map parameter added)"
    by blast
  have 1: "extract_results out crit live
       = stage1 out @ second @ dbms_findings out @ critical_findings crit @ added"
    using a by (simp add: extract_results_stages second_def)
  have 2: "dedup_key ` set second \<inter> dedup_key ` set (stage1 out) = {}"
    by (cases "stage1 out = []") (simp_all add: second_def)
  have s12: "parameter f \<noteq> None" if "f \<in> set (stage1 out @ second)" for f
    using that stage1_parameter alt_findings_parameter by (auto simp: second_def split: if_splits)
  have 3: "dedup_key ` set (dbms_findings out) \<inter> dedup_key ` set (stage1 out @ second) = {}"
  proof -
    have "dedup_key f \<noteq> dedup_key g"
      if "f \<in> set (dbms_findings out)" "g \<in> set (stage1 out @ second)" for f g
      using dbms_findings_key [OF that(1)] s12 [OF that(2)] by (auto simp: dedup_key_def)
    then show ?thesis by blast
  qed
  have 4: "dedup_key ` set (critical_findings crit)
       \<inter> dedup_key ` set (stage1 out @ second @ dbms_findings out) = {}"
  proof -
    have "dedup_key f \<noteq> dedup_key g"
      if "f \<in> set (critical_findings crit)" "g \<in> set (stage1 out @ second @ dbms_findings out)" for f g
    proof (cases "g \<in> set (dbms_findings out)")
      case True
      with critical_findings_key [OF that(1)] dbms_findings_key [of g out] show ?thesis by simp
    next
      case False
      with that(2) have "g \<in> set (stage1 out @ second)" by auto
      with critical_findings_key [OF that(1)] s12 [of g] show ?thesis by (auto simp: dedup_key_def)
    qed
    then show ?thesis by blast
  qed
  have 5: "dedup_key ` set added \<inter> dedup_key ` set ?early = {}"
  proof -
    have "dedup_key f \<noteq> dedup_key g" if "f \<in> set added" "g \<in> set ?early" for f g
      using b that by (auto simp: dedup_key_def)
    then show ?thesis by blast
  qed
  have 6: "distinct (map dedup_key added)"
  proof -
    have "inj_on dedup_key (set added)"
      using c by (auto simp: inj_on_def dedup_key_def distinct_map)
    with c show ?thesis by (simp add: distinct_map)
  qed
  from 1 2 3 4 5 6 show ?thesis
    by (intro exI [of _ second] exI [of _ added]) (simp add: second_def)
qed

text \<open>
  Claim C2 says that the results hold at most one finding for a parameter and type. They
  can hold more: a scan that reads the same report of an injectable parameter twice and
  exits with status 0 has the finding of stage 2 for it twice.
\<close>

theorem duplicate_findings_counterexample:
  "results (last duplicate_run) =
     Some [\<lparr>parameter = Some ''id'', ftype = ''GET - is vulnerable. Do you'', title = None,
             payload = None, info = None\<rparr>,
           \<lparr>parameter = Some ''id'', ftype = ''GET - is vulnerable. Do you'', title = None,
             payload = None, info = None\<rparr>,
           \<lparr>parameter = Some ''parameter'', ftype = ''is vulnerable. Do you'', title = None,
             payload = None, info = None\<rparr>] \<and>
   \<not> distinct (map dedup_key (the (results (last duplicate_run))))"
  by code_simp

subsection \<open>Matching the pattern of stage 2\<close>














































subsection \<open>The status query\<close>

text \<open>
  Claim C9 says that the elapsed time of a task in a final state is computed from its start
  and end time. It is not: the example scan started at 0 and completed at 10, and a query
  at time 100 reports 100.
\<close>

theorem elapsed_counterexample:
  "status (last completed_run) = COMPLETED \<and>
   start_time (last completed_run) = Some 0 \<and>
   end_time (last completed_run) = Some 10 \<and>
   map_sum id elapsed_time (fst (get_scan_status ''t1'' 100 (Map.empty(''t1'' \<mapsto> last completed_run))))
     = Inr (Some 100)"
  by code_simp

text \<open>
  Claim C9, amended. For every task with a recorded start time the query reports the
  clock's value at the query minus the start time, whatever the state of the task and its
  end time.
\<close>

theorem elapsed_from_current_time:
  assumes "tasks task_id = Some t" and "start_time t = Some started"
  shows "\<exists>r. fst (get_scan_status task_id current_time tasks) = Inr r \<and>
             elapsed_time r = Some (current_time - started)"
  using assms by (simp add: get_scan_status_def report_of_def elapsed_of_def)

theorem elapsed_from_current_time_witness:
  "(Map.empty(''t1'' \<mapsto> last completed_run)) ''t1'' = Some (last completed_run) \<and>
   start_time (last completed_run) = Some 0 \<and>
   (\<exists>r. fst (get_scan_status ''t1'' 100 (Map.empty(''t1'' \<mapsto> last completed_run))) = Inr r \<and>
        elapsed_time r = Some (100 - 0))"
proof -
  have a: "(Map.empty(''t1'' \<mapsto> last completed_run)) ''t1'' = Some (last completed_run)"
    by simp
  have b: "start_time (last completed_run) = Some 0"
    by code_simp
  from elapsed_from_current_time
         [where tasks = "Map.empty(''t1'' \<mapsto> last completed_run)" and task_id = "''t1''"
            and current_time = 100, OF a b] a b
  show ?thesis
    by blast
qed








lemma splitlines_from_single: "length (splitlines_from cur []) \<le> Suc 0"
  by simp









subsection \<open>Running a scan\<close>

lemma kept_refl: "kept t t"
  by (auto simp: kept_def)

lemma kept_trans: "kept a b \<Longrightarrow> kept b c \<Longrightarrow> kept a c"
  by (auto simp: kept_def)

lemma kept_and_then:
  assumes "kept t (state_of r)" and "\<And>u. kept u (state_of (f u))"
  shows "kept t (state_of (and_then r f))"
proof (cases r)
  case (Done u)
  with assms(1) have "kept t u" by simp
  with assms(2) [of u] Done show ?thesis by (auto intro: kept_trans)
next
  case (Raised u e)
  with assms(1) show ?thesis by simp
qed

lemma kept_append_output: "kept t (state_of (append_output s t))"
  by (cases "output_buffer t") (auto simp: append_output_def kept_def)

lemma kept_append_critical: "kept t (state_of (append_critical s t))"
  by (cases "critical_lines t") (auto simp: append_critical_def kept_def)

lemma kept_append_vulnerability: "kept t (state_of (append_vulnerability v t))"
  by (cases "vulnerabilities t") (auto simp: append_vulnerability_def kept_def)

lemma kept_on_stdout: "kept t (state_of (on_stdout l t))"
  unfolding on_stdout_def Let_def
  by (intro kept_and_then kept_append_output)
     (auto simp: kept_refl kept_append_critical kept_append_vulnerability)

lemma kept_on_stderr: "kept t (state_of (on_stderr l t))"
  unfolding on_stderr_def Let_def
  by (intro kept_and_then kept_append_output) (auto simp: kept_def append_error_def)

lemma kept_read_stdout: "kept t (state_of (read_stdout outs t))"
  by (auto simp: read_stdout_def kept_refl kept_on_stdout split: list.splits chunk.splits)

lemma kept_read_stderr: "kept t (state_of (read_stderr errs t))"
  by (auto simp: read_stderr_def kept_refl kept_on_stderr split: list.splits chunk.splits)

lemma kept_read_loop:
  "read_loop t outs errs = (seen, r) \<Longrightarrow> kept t (state_of r) \<and> list_all (kept t) seen"
proof (induction t outs errs arbitrary: seen r rule: read_loop.induct)
  case (1 t outs errs)
  show ?case
  proof (cases "read_stdout outs t")
    case (Raised t1 e)
    with 1(2) have "seen = [t]" "r = Raised t1 e"
      by (simp_all add: read_loop.simps [of t outs errs])
    with kept_read_stdout [of t outs] Raised show ?thesis by (simp add: kept_refl)
  next
    case (Done t1)
    note d1 = this
    have k1: "kept t t1" using kept_read_stdout [of t outs] Done by simp
    show ?thesis
    proof (cases "read_stderr errs t1")
      case (Raised t2 e)
      with 1(2) d1 have "seen = [t, t1]" "r = Raised t2 e"
        by (simp_all add: read_loop.simps [of t outs errs])
      with kept_read_stderr [of t1 errs] Raised k1 show ?thesis
        by (auto simp: kept_refl intro: kept_trans)
    next
      case (Done t2)
      note d2 = this
      have k2: "kept t t2" using kept_read_stderr [of t1 errs] Done k1 by (auto intro: kept_trans)
      show ?thesis
      proof (cases "tl outs = [] \<and> tl errs = []")
        case True
        with 1(2) d1 d2 have "seen = [t, t1]" "r = Done t2"
          by (simp_all add: read_loop.simps [of t outs errs])
        with k1 k2 show ?thesis by (simp add: kept_refl)
      next
        case False
        obtain seen' r' where rec: "read_loop t2 (tl outs) (tl errs) = (seen', r')"
          by (cases "read_loop t2 (tl outs) (tl errs)")
        with 1(2) d1 d2 False have sr: "seen = t # t1 # seen'" "r = r'"
          by (simp_all add: read_loop.simps [of t outs errs])
        from 1(1) [OF d1 d2 False rec] have "kept t2 (state_of r')" "list_all (kept t2) seen'"
          by simp_all
        with k2 have "kept t (state_of r')" "list_all (kept t) seen'"
          by (auto intro: kept_trans simp: list_all_iff)
        with sr k1 show ?thesis by (simp add: kept_refl)
      qed
    qed
  qed
qed













text \<open>
  Claim C1, amended. When the process was started, the reading loop ended without an
  exception leaving the task \<open>t2\<close>, and the exit status is not zero, then the scan leaves
  the task FAILED with the exit status and the end time recorded and everything else as the
  loop left it: the output buffer, the critical lines and the vulnerabilities noted while
  reading are kept. The extraction stages are not run: the results are what they were
  before the scan.
\<close>

theorem nonzero_exit_fails_without_extraction:
  assumes "tasks task_id = Some t"
    and "read_loop (start_scan target opts t) outs errs = (seen, Done t2)"
    and "rc \<noteq> 0"
  shows "\<exists>final.
           last (run_sqlmap_scan task_id target opts (Spawned outs errs rc) now tasks) task_id
             = Some final \<and>
           final = t2\<lparr>status := FAILED, return_code := Some rc, end_time := Some now\<rparr> \<and>
           status final = FAILED \<and> return_code final = Some rc \<and>
           output_buffer final = output_buffer t2 \<and>
           critical_lines final = critical_lines t2 \<and>
           vulnerabilities final = vulnerabilities t2 \<and>
           results final = results t"
proof -
  from kept_read_loop [OF assms(2)] have "results t2 = results t"
    by (simp add: kept_def start_scan_def)
  moreover have "last (run_sqlmap_scan task_id target opts (Spawned outs errs rc) now tasks) task_id
      = Some (finish_scan rc now t2)"
    using assms(1,2) by (simp add: run_sqlmap_scan_def run_task_def Let_def last_map)
  ultimately show ?thesis using assms(3) by (simp add: finish_scan_def)
qed

text \<open>
  Claim C1 says that after a non-zero exit the extraction stages still run over the
  output. They do not: the example scan reads a line that reports an injectable parameter
  and exits with status 1; the task is FAILED with the status recorded and the buffer
  kept, but its results are unset, though the extraction stages give two findings for
  this task.
\<close>

theorem failed_scan_not_extracted:
  "status (last failed_run) = FAILED \<and>
   return_code (last failed_run) = Some 1 \<and>
   output_buffer (last failed_run) = Some vulnerable_line \<and>
   results (last failed_run) = None \<and>
   results (parse_task (last failed_run)) =
     Some [\<lparr>parameter = Some ''id'', ftype = ''GET - is vulnerable. Do you'', title = None,
             payload = None, info = None\<rparr>,
           \<lparr>parameter = Some ''parameter'', ftype = ''is vulnerable. Do you'', title = None,
             payload = None, info = None\<rparr>]"
  by code_simp

theorem nonzero_exit_fails_without_extraction_witness:
  "example_tasks ''t1'' = Some (new_task ''http://h/?id=1'' [] 0) \<and>
   read_loop (start_scan ''http://h/?id=1'' [] (new_task ''http://h/?id=1'' [] 0))
       [Data vulnerable_line] []
     = (fst (read_loop (start_scan ''http://h/?id=1'' [] (new_task ''http://h/?id=1'' [] 0))
               [Data vulnerable_line] []),
        Done (state_of (snd (read_loop (start_scan ''http://h/?id=1'' [] (new_task ''http://h/?id=1'' [] 0))
               [Data vulnerable_line] [])))) \<and>
   (1::int) \<noteq> 0 \<and>
   (\<exists>final.
      last (run_sqlmap_scan ''t1'' ''http://h/?id=1'' [] (Spawned [Data vulnerable_line] [] 1) 10
              example_tasks) ''t1'' = Some final \<and>
      status final = FAILED \<and> return_code final = Some 1 \<and>
      output_buffer final = Some vulnerable_line \<and>
      vulnerabilities final = Some [\<lparr>vparameter = ''parameter'', vtype = ''is vulnerable. Do you''\<rparr>] \<and>
      results final = None)"
proof -
  let ?t = "new_task ''http://h/?id=1'' [] 0"
  let ?loop = "read_loop (start_scan ''http://h/?id=1'' [] ?t) [Data vulnerable_line] []"
  have a: "example_tasks ''t1'' = Some ?t"
    by (simp add: example_tasks_def)
  have b: "?loop = (fst ?loop, Done (state_of (snd ?loop)))"
    by code_simp
  have c: "(1::int) \<noteq> 0"
    by simp
  have d: "output_buffer (state_of (snd ?loop)) = Some vulnerable_line"
    by code_simp
  have e: "vulnerabilities (state_of (snd ?loop))
             = Some [\<lparr>vparameter = ''parameter'', vtype = ''is vulnerable. Do you''\<rparr>]"
    by code_simp
  have f: "results ?t = None"
    by (simp add: new_task_def)
  from nonzero_exit_fails_without_extraction
         [where tasks = example_tasks and task_id = "''t1''" and now = 10, OF a b c]
  obtain final where
    "last (run_sqlmap_scan ''t1'' ''http://h/?id=1'' [] (Spawned [Data vulnerable_line] [] 1) 10
              example_tasks) ''t1'' = Some final"
    "status final = FAILED" "return_code final = Some 1"
    "output_buffer final = output_buffer (state_of (snd ?loop))"
    "vulnerabilities final = vulnerabilities (state_of (snd ?loop))"
    "results final = results ?t"
    by (elim exE conjE) (rule that, assumption+)
  with a b c d e f show ?thesis
    by (intro conjI exI [of _ final]) simp_all
qed



subsection \<open>The reading loop\<close>

lemma on_stdout_ready:
  assumes "ready t" and "output_buffer t = Some buf"
  shows "\<exists>t'. on_stdout l t = Done t' \<and> ready t' \<and> output_buffer t' = Some (buf @ stdout_text l)"
proof -
  from assms obtain cl vs where f: "critical_lines t = Some cl" "vulnerabilities t = Some vs"
    by (auto simp: ready_def)
  let ?t1 = "t\<lparr>output_buffer := Some (buf @ rstrip l @ [CHR 10])\<rparr>"
  have 1: "append_output (rstrip l @ [CHR 10]) t = Done ?t1"
    using assms(2) by (simp add: append_output_def)
  obtain t2 where 2: "(if contains ''[CRITICAL]'' (rstrip l) then append_critical (rstrip l) ?t1 else Done ?t1)
      = Done t2" "ready t2" "output_buffer t2 = Some (buf @ rstrip l @ [CHR 10])"
    using f by (cases "contains ''[CRITICAL]'' (rstrip l)") (auto simp: append_critical_def ready_def)
  then obtain vs2 where v2: "vulnerabilities t2 = Some vs2"
    by (auto simp: ready_def)
  have 3: "\<exists>t'. append_vulnerability v t2 = Done t' \<and> ready t' \<and>
             output_buffer t' = Some (buf @ rstrip l @ [CHR 10])" for v
    using 2(2,3) v2 by (simp add: append_vulnerability_def ready_def)
  have "\<exists>t'. (if contains ''is vulnerable'' (rstrip l) \<and> contains ''parameter'' (rstrip l) then
          (let parts = split (rstrip l) in
           if length parts > 3 then
             append_vulnerability
               \<lparr>vparameter = strip_chars [CHR 39] (parts ! 1), vtype = join '' '' (drop 3 parts)\<rparr> t2
           else Done t2)
        else Done t2) = Done t' \<and> ready t' \<and> output_buffer t' = Some (buf @ rstrip l @ [CHR 10])"
    using 2(2,3) 3 by (simp add: Let_def)
  then show ?thesis
    unfolding on_stdout_def Let_def 1 and_then.simps 2(1) stdout_text_def .
qed

lemma on_stderr_ready:
  assumes "ready t" and "output_buffer t = Some buf"
  shows "\<exists>t'. on_stderr l t = Done t' \<and> ready t' \<and> output_buffer t' = Some (buf @ stderr_text l)"
  using assms
  by (simp add: on_stderr_def Let_def append_output_def append_error_def ready_def stderr_text_def)

lemma in_turn_unfold: "in_turn xs ys = take 1 xs @ take 1 ys @ in_turn (tl xs) (tl ys)"
  by (induction xs ys rule: in_turn.induct) simp_all

lemma in_turn_short: "tl xs = [] \<Longrightarrow> tl ys = [] \<Longrightarrow> in_turn xs ys = take 1 xs @ take 1 ys"
  using in_turn_unfold [of xs ys] by simp

lemma read_stdout_ready:
  assumes "ready t" and "output_buffer t = Some buf"
  shows "\<exists>t'. read_stdout (map Data outs) t = Done t' \<and> ready t' \<and>
              output_buffer t' = Some (buf @ concat (take 1 (map stdout_text outs)))"
proof (cases outs)
  case Nil
  with assms show ?thesis by (simp add: read_stdout_def)
next
  case (Cons l ls)
  with on_stdout_ready [OF assms, of l] show ?thesis by (simp add: read_stdout_def)
qed

lemma read_stderr_ready:
  assumes "ready t" and "output_buffer t = Some buf"
  shows "\<exists>t'. read_stderr (map Data errs) t = Done t' \<and> ready t' \<and>
              output_buffer t' = Some (buf @ concat (take 1 (map stderr_text errs)))"
proof (cases errs)
  case Nil
  with assms show ?thesis by (simp add: read_stderr_def)
next
  case (Cons l ls)
  with on_stderr_ready [OF assms, of l] show ?thesis by (simp add: read_stderr_def)
qed

lemma read_loop_in_turn:
  "couts = map Data outs \<Longrightarrow> cerrs = map Data errs \<Longrightarrow> ready t \<Longrightarrow> output_buffer t = Some buf \<Longrightarrow>
   \<exists>seen t2. read_loop t couts cerrs = (seen, Done t2) \<and> ready t2 \<and>
     output_buffer t2 = Some (buf @ concat (in_turn (map stdout_text outs) (map stderr_text errs)))"
proof (induction t couts cerrs arbitrary: outs errs buf rule: read_loop.induct)
  case (1 t couts cerrs)
  from read_stdout_ready [OF 1(4,5), of outs] obtain t1 where
    a: "read_stdout couts t = Done t1" "ready t1"
      "output_buffer t1 = Some (buf @ concat (take 1 (map stdout_text outs)))"
    using 1(2) by blast
  from read_stderr_ready [OF a(2,3), of errs] obtain t2 where
    b: "read_stderr cerrs t1 = Done t2" "ready t2"
      "output_buffer t2 = Some ((buf @ concat (take 1 (map stdout_text outs)))
                                @ concat (take 1 (map stderr_text errs)))"
    using 1(3) by blast
  show ?case
  proof (cases "tl couts = [] \<and> tl cerrs = []")
    case True
    then have "tl (map stdout_text outs) = []" "tl (map stderr_text errs) = []"
      using 1(2,3) by (simp_all add: map_tl [symmetric] del: map_tl)
    then have "in_turn (map stdout_text outs) (map stderr_text errs)
        = take 1 (map stdout_text outs) @ take 1 (map stderr_text errs)"
      by (rule in_turn_short)
    moreover have "read_loop t couts cerrs = ([t, t1], Done t2)"
      using a(1) b(1) True by (subst read_loop.simps) simp
    ultimately show ?thesis using b(2,3) by simp
  next
    case False
    have "tl couts = map Data (tl outs)" "tl cerrs = map Data (tl errs)"
      using 1(2,3) by (simp_all add: map_tl)
    from 1(1) [OF a(1) b(1) False this b(2,3)] obtain seen t3 where
      c: "read_loop t2 (tl couts) (tl cerrs) = (seen, Done t3)" "ready t3"
        "output_buffer t3 = Some (((buf @ concat (take 1 (map stdout_text outs)))
                                   @ concat (take 1 (map stderr_text errs)))
                                  @ concat (in_turn (map stdout_text (tl outs)) (map stderr_text (tl errs))))"
      by blast
    have "read_loop t couts cerrs = (t # t1 # seen, Done t3)"
      using a(1) b(1) False c(1) by (subst read_loop.simps) auto
    moreover have "concat (in_turn (map stdout_text outs) (map stderr_text errs))
        = concat (take 1 (map stdout_text outs)) @ concat (take 1 (map stderr_text errs))
          @ concat (in_turn (map stdout_text (tl outs)) (map stderr_text (tl errs)))"
      using in_turn_unfold [of "map stdout_text outs" "map stderr_text errs"]
      by (simp add: map_tl)
    ultimately show ?thesis using c(2,3) by simp
  qed
qed

text \<open>
  Claim C4, amended. The loop reads the two streams in turn: it runs to the end of both
  streams when no read raises, and then the output buffer has grown by the lines of
  both streams, taken in turn: the first line of standard output, the first of standard
  error, the second of standard output, and so on, each as the loop appends it.
\<close>

theorem reads_in_turn:
  assumes "output_buffer t = Some buf" and "critical_lines t \<noteq> None" and "vulnerabilities t \<noteq> None"
  shows "\<exists>seen t2. read_loop t (map Data outs) (map Data errs) = (seen, Done t2) \<and>
     output_buffer t2 = Some (buf @ concat (in_turn (map stdout_text outs) (map stderr_text errs)))"
proof -
  have "ready t" using assms by (simp add: ready_def)
  from read_loop_in_turn [OF refl refl this assms(1), of outs errs] show ?thesis by blast
qed

theorem reads_in_turn_witness:
  "output_buffer (start_scan ''http://h/?id=1'' [] (new_task ''http://h/?id=1'' [] 0)) = Some [] \<and>
   critical_lines (start_scan ''http://h/?id=1'' [] (new_task ''http://h/?id=1'' [] 0)) \<noteq> None \<and>
   vulnerabilities (start_scan ''http://h/?id=1'' [] (new_task ''http://h/?id=1'' [] 0)) \<noteq> None \<and>
   (\<exists>seen t2.
      read_loop (start_scan ''http://h/?id=1'' [] (new_task ''http://h/?id=1'' [] 0))
        (map Data [''out 1'', ''out 2'', ''out 3'']) (map Data [''err 1''])
        = (seen, Done t2) \<and>
      output_buffer t2
        = Some (''out 1'' @ [CHR 10] @ ''[ERROR] err 1'' @ [CHR 10] @ ''out 2'' @ [CHR 10]
                @ ''out 3'' @ [CHR 10]))"
proof -
  let ?t = "start_scan ''http://h/?id=1'' [] (new_task ''http://h/?id=1'' [] 0)"
  have a: "output_buffer ?t = Some []"
    by (simp add: start_scan_def)
  have b: "critical_lines ?t \<noteq> None"
    by (simp add: start_scan_def)
  have c: "vulnerabilities ?t \<noteq> None"
    by (simp add: start_scan_def)
  have d: "[] @ concat (in_turn (map stdout_text [''out 1'', ''out 2'', ''out 3''])
                                (map stderr_text [''err 1'']))
      = ''out 1'' @ [CHR 10] @ ''[ERROR] err 1'' @ [CHR 10] @ ''out 2'' @ [CHR 10]
          @ ''out 3'' @ [CHR 10]"
    by code_simp
  from reads_in_turn [OF a b c, of "[''out 1'', ''out 2'', ''out 3'']" "[''err 1'']"]
  obtain seen t2 where
    "read_loop ?t (map Data [''out 1'', ''out 2'', ''out 3'']) (map Data [''err 1'']) = (seen, Done t2)"
    "output_buffer t2 = Some ([] @ concat (in_turn (map stdout_text [''out 1'', ''out 2'', ''out 3''])
                                (map stderr_text [''err 1''])))"
    by blast
  then have "\<exists>seen t2.
      read_loop ?t (map Data [''out 1'', ''out 2'', ''out 3'']) (map Data [''err 1'']) = (seen, Done t2) \<and>
      output_buffer t2
        = Some (''out 1'' @ [CHR 10] @ ''[ERROR] err 1'' @ [CHR 10] @ ''out 2'' @ [CHR 10]
                @ ''out 3'' @ [CHR 10])"
    unfolding d by blast
  with a b c show ?thesis by (intro conjI)
qed

text \<open>
  Claim C4 says that two independent readers keep a process from being stalled by a full
  pipe. The code has one loop that reads standard output and standard error in turn, and
  a process can stall: with pipes that hold one line, the process writes its first line
  (the loop waits for standard output), the loop reads it and waits for standard error,
  the process writes its second line and cannot write its third, since the pipe of
  standard output is full; the loop still waits for standard error, which the process
  neither writes nor closes. In each of these states only the step taken was possible.
\<close>

theorem sequential_reader_stalls:
  "process_can_write 1 chatty_process \<and>
   \<not> consumer_can_read chatty_process \<and>
   consumer_can_read (process_write chatty_process) \<and>
   \<not> process_can_write 1 (process_write chatty_process) \<and>
   process_can_write 1 (consumer_read (process_write chatty_process)) \<and>
   \<not> consumer_can_read (consumer_read (process_write chatty_process)) \<and>
   stalled 1 (process_write (consumer_read (process_write chatty_process))) \<and>
   script (process_write (consumer_read (process_write chatty_process))) = [(Stdout, ''line 3'')] \<and>
   waiting (process_write (consumer_read (process_write chatty_process))) = Stderr \<and>
   output_buffer (entry (process_write (consumer_read (process_write chatty_process))))
     = Some (''line 1'' @ [CHR 10])"
  by code_simp

end
